theory Spec2Isabelle
  imports Main "HOL-Library.Word"
begin

unbundle bit_operations_syntax

section \<open>The multi-channel RSS bot of \<^verbatim>\<open>rss_bot.py\<close>\<close>

text \<open>
  A shallow embedding of the class \<^verbatim>\<open>MultiChannelCyberSecBot\<close>. Python strings are
  modelled as \<^typ>\<open>string\<close>, each \<^typ>\<open>char\<close> standing for one code point in the range
  U+0000 to U+00FF; the string operations below are Python's on that range. Text that
  the program writes with code points beyond it (the emojis of the footer and of the
  sender name) is a list of code points, \<^typ>\<open>int list\<close>. The collaborators of the
  program (the feed parser, the HTTP client, the clock, the process environment) are
  parameters of the model, collected in the record \<open>env\<close>.
\<close>

subsection \<open>String operations\<close>

text \<open>
  \<^verbatim>\<open>str.lower()\<close>: on the code points up to U+00FF the upper-case letters are
  \<open>A\<close> to \<open>Z\<close> (65 to 90) and U+00C0 to U+00DE without the multiplication sign
  U+00D7; lowering adds 32, that is, it sets the bit of weight 32, which is clear in
  both ranges.
\<close>

fun lower_char :: "char \<Rightarrow> char" where
  "lower_char (Char b0 b1 b2 b3 b4 b5 b6 b7) =
     (let n = (of_char (Char b0 b1 b2 b3 b4 b5 b6 b7) :: nat)
      in if (65 \<le> n \<and> n \<le> 90) \<or> (192 \<le> n \<and> n \<le> 222 \<and> n \<noteq> 215)
         then Char b0 b1 b2 b3 b4 True b6 b7
         else Char b0 b1 b2 b3 b4 b5 b6 b7)"

definition str_lower :: "string \<Rightarrow> string" where
  "str_lower s = map lower_char s"

text \<open>\<^verbatim>\<open>text.startswith(p)\<close> and the substring test \<^verbatim>\<open>sub in text\<close>.\<close>

fun startswith :: "string \<Rightarrow> string \<Rightarrow> bool" where
  "startswith text [] = True"
| "startswith [] (p # ps) = False"
| "startswith (c # cs) (p # ps) = (c = p \<and> startswith cs ps)"

fun str_in :: "string \<Rightarrow> string \<Rightarrow> bool" where
  "str_in sub [] = (sub = [])"
| "str_in sub (c # cs) = (startswith (c # cs) sub \<or> str_in sub cs)"

subsection \<open>The difficulty classifier\<close>

text \<open>
  \<^verbatim>\<open>classify_difficulty\<close>: \<open>difficulty_text\<close> is the local \<^verbatim>\<open>text\<close>, the lowered
  f-string of title, one space and description; \<open>keyword_score\<close> is the generator
  expression \<^verbatim>\<open>sum(1 for keyword in keywords if keyword in text)\<close>.
\<close>

definition beginner_keywords :: "string list" where
  "beginner_keywords =
     [''beginner'', ''intro'', ''introduction'', ''basics'', ''fundamentals'',
      ''getting started'', ''tutorial'', ''guide'', ''101'', ''basic'']"

definition intermediate_keywords :: "string list" where
  "intermediate_keywords =
     [''advanced'', ''intermediate'', ''deep dive'', ''exploitation'', ''bypass'',
      ''analysis'', ''reverse engineering'', ''advanced techniques'']"

definition difficulty_text :: "string \<Rightarrow> string \<Rightarrow> string" where
  "difficulty_text title description = str_lower (title @ '' '' @ description)"

definition keyword_score :: "string list \<Rightarrow> string \<Rightarrow> int" where
  "keyword_score keywords text =
     sum_list (map (\<lambda>keyword. 1) (filter (\<lambda>keyword. str_in keyword text) keywords))"

definition beginner_score :: "string \<Rightarrow> string \<Rightarrow> int" where
  "beginner_score title description =
     keyword_score beginner_keywords (difficulty_text title description)"

definition intermediate_score :: "string \<Rightarrow> string \<Rightarrow> int" where
  "intermediate_score title description =
     keyword_score intermediate_keywords (difficulty_text title description)"

definition classify_difficulty :: "string \<Rightarrow> string \<Rightarrow> string" where
  "classify_difficulty title description =
     (if beginner_score title description > intermediate_score title description
      then ''beginner''
      else if intermediate_score title description > 0 then ''intermediate''
      else ''general'')"

subsection \<open>The channel router\<close>

text \<open>
  \<^verbatim>\<open>get_appropriate_channel\<close>. The difficulty is computed first, as in the source, and
  not used; the two keyword lists are the literals of the two \<^verbatim>\<open>any(...)\<close> tests.
\<close>

definition writeup_keywords :: "string list" where
  "writeup_keywords = [''writeup'', ''write-up'', ''walkthrough'', ''solution'']"

definition ctf_keywords :: "string list" where
  "ctf_keywords = [''ctf'', ''capture the flag'', ''competition'', ''challenge'']"

definition get_appropriate_channel :: "string \<Rightarrow> string \<Rightarrow> string \<Rightarrow> string" where
  "get_appropriate_channel category title description =
     (let difficulty = classify_difficulty title description
      in if list_ex (\<lambda>keyword. str_in keyword (str_lower title)
                              \<or> str_in keyword (str_lower description)) writeup_keywords
         then ''writeups''
         else if list_ex (\<lambda>keyword. str_in keyword (str_lower title)
                                   \<or> str_in keyword (str_lower description)) ctf_keywords
         then ''ctf''
         else category)"

subsection \<open>Notions used to state the properties\<close>

text \<open>
  \<open>occurs_in sub s\<close>: \<open>sub\<close> is a contiguous part of \<open>s\<close>.
  \<open>occurs_ignoring_case keyword s\<close>: some contiguous part of \<open>s\<close> is the keyword up to
  the case of its letters. \<open>count_occurrences\<close> counts the positions at which a
  substring starts, and \<open>spec_occurrence_score\<close> is the score that counts every
  occurrence of every keyword.
\<close>

definition occurs_in :: "string \<Rightarrow> string \<Rightarrow> bool" where
  "occurs_in sub text = (\<exists>before after. text = before @ sub @ after)"

definition occurs_ignoring_case :: "string \<Rightarrow> string \<Rightarrow> bool" where
  "occurs_ignoring_case keyword text =
     (\<exists>before w after. text = before @ w @ after \<and> str_lower w = keyword)"

fun count_occurrences :: "string \<Rightarrow> string \<Rightarrow> int" where
  "count_occurrences sub [] = (if sub = [] then 1 else 0)"
| "count_occurrences sub (c # cs) =
     (if startswith (c # cs) sub then 1 else 0) + count_occurrences sub cs"

definition spec_occurrence_score :: "string list \<Rightarrow> string \<Rightarrow> int" where
  "spec_occurrence_score keywords text =
     sum_list (map (\<lambda>keyword. count_occurrences keyword text) keywords)"

subsection \<open>The item identifier\<close>

text \<open>
  \<^verbatim>\<open>generate_item_id\<close> is \<^verbatim>\<open>hashlib.md5(f"{title}{link}".encode()).hexdigest()\<close>.
  \<open>encode\<close> is UTF-8 on the code points up to U+00FF (one byte below 128, two bytes
  from there on). \<open>md5_digest\<close> is the MD5 algorithm of RFC 1321 on 32-bit words:
  padding to a multiple of 64 bytes with the length in bits, 64 steps per block with
  the sine table \<open>md5_K\<close>, the rotation amounts \<open>md5_shifts\<close> and the left
  rotation \<open>rotate_left\<close> of 32-bit words, little-endian words.
\<close>

type_synonym byte = "8 word"
type_synonym u32 = "32 word"

definition utf8_char :: "char \<Rightarrow> byte list" where
  "utf8_char c =
     (let n = (of_char c :: nat)
      in if n < 128 then [of_nat n]
         else [of_nat (192 + n div 64), of_nat (128 + n mod 64)])"

definition encode :: "string \<Rightarrow> byte list" where
  "encode s = concat (map utf8_char s)"

definition md5_shifts :: "nat list" where
  "md5_shifts =
     [7, 12, 17, 22, 7, 12, 17, 22, 7, 12, 17, 22, 7, 12, 17, 22,
      5, 9, 14, 20, 5, 9, 14, 20, 5, 9, 14, 20, 5, 9, 14, 20,
      4, 11, 16, 23, 4, 11, 16, 23, 4, 11, 16, 23, 4, 11, 16, 23,
      6, 10, 15, 21, 6, 10, 15, 21, 6, 10, 15, 21, 6, 10, 15, 21]"

definition md5_K :: "u32 list" where
  "md5_K =
     [0xd76aa478, 0xe8c7b756, 0x242070db, 0xc1bdceee, 0xf57c0faf, 0x4787c62a, 0xa8304613, 0xfd469501,
      0x698098d8, 0x8b44f7af, 0xffff5bb1, 0x895cd7be, 0x6b901122, 0xfd987193, 0xa679438e, 0x49b40821,
      0xf61e2562, 0xc040b340, 0x265e5a51, 0xe9b6c7aa, 0xd62f105d, 0x02441453, 0xd8a1e681, 0xe7d3fbc8,
      0x21e1cde6, 0xc33707d6, 0xf4d50d87, 0x455a14ed, 0xa9e3e905, 0xfcefa3f8, 0x676f02d9, 0x8d2a4c8a,
      0xfffa3942, 0x8771f681, 0x6d9d6122, 0xfde5380c, 0xa4beea44, 0x4bdecfa9, 0xf6bb4b60, 0xbebfbc70,
      0x289b7ec6, 0xeaa127fa, 0xd4ef3085, 0x04881d05, 0xd9d4d039, 0xe6db99e5, 0x1fa27cf8, 0xc4ac5665,
      0xf4292244, 0x432aff97, 0xab9423a7, 0xfc93a039, 0x655b59c3, 0x8f0ccc92, 0xffeff47d, 0x85845dd1,
      0x6fa87e4f, 0xfe2ce6e0, 0xa3014314, 0x4e0811a1, 0xf7537e82, 0xbd3af235, 0x2ad7d2bb, 0xeb86d391]"

definition le_bytes :: "nat \<Rightarrow> 'a::len word \<Rightarrow> byte list" where
  "le_bytes k w = map (\<lambda>i. ucast (drop_bit (8 * i) w)) [0..<k]"

definition md5_pad :: "byte list \<Rightarrow> byte list" where
  "md5_pad msg =
     msg @ [0x80] @ replicate ((119 - length msg mod 64) mod 64) 0
         @ le_bytes 8 (of_nat (8 * length msg) :: 64 word)"

definition le_word :: "byte list \<Rightarrow> u32" where
  "le_word bs = foldr (\<lambda>b w. ucast b OR push_bit 8 w) bs 0"

definition md5_words :: "byte list \<Rightarrow> u32 list" where
  "md5_words block = map (\<lambda>j. le_word (take 4 (drop (4 * j) block))) [0..<16]"

definition rotate_left :: "u32 \<Rightarrow> nat \<Rightarrow> u32" where
  "rotate_left x n = push_bit n x OR drop_bit (32 - n) x"

definition md5_step :: "u32 list \<Rightarrow> u32 \<times> u32 \<times> u32 \<times> u32 \<Rightarrow> nat \<Rightarrow> u32 \<times> u32 \<times> u32 \<times> u32" where
  "md5_step M st i =
     (case st of (a, b, c, d) \<Rightarrow>
        let (f, g) =
              (if i < 16 then ((b AND c) OR (NOT b AND d), i)
               else if i < 32 then ((d AND b) OR (NOT d AND c), (5 * i + 1) mod 16)
               else if i < 48 then (b XOR c XOR d, (3 * i + 5) mod 16)
               else (c XOR (b OR NOT d), (7 * i) mod 16));
            f' = f + a + md5_K ! i + M ! g
        in (d, b + rotate_left f' (md5_shifts ! i), b, c))"

definition md5_block :: "u32 \<times> u32 \<times> u32 \<times> u32 \<Rightarrow> byte list \<Rightarrow> u32 \<times> u32 \<times> u32 \<times> u32" where
  "md5_block h block =
     (case h of (a0, b0, c0, d0) \<Rightarrow>
        case foldl (md5_step (md5_words block)) (a0, b0, c0, d0) [0..<64] of
          (a, b, c, d) \<Rightarrow> (a0 + a, b0 + b, c0 + c, d0 + d))"

definition md5_blocks :: "byte list \<Rightarrow> byte list list" where
  "md5_blocks padded = map (\<lambda>j. take 64 (drop (64 * j) padded)) [0..<length padded div 64]"

definition md5_digest :: "byte list \<Rightarrow> byte list" where
  "md5_digest msg =
     (case foldl md5_block (0x67452301, 0xefcdab89, 0x98badcfe, 0x10325476)
             (md5_blocks (md5_pad msg)) of
        (a, b, c, d) \<Rightarrow> concat (map (le_bytes 4) [a, b, c, d]))"

definition hex_digit :: "nat \<Rightarrow> char" where
  "hex_digit n = ''0123456789abcdef'' ! n"

definition hex_byte :: "byte \<Rightarrow> string" where
  "hex_byte b = [hex_digit (unat (drop_bit 4 b)), hex_digit (unat (b AND 0x0f))]"

definition md5_hexdigest :: "byte list \<Rightarrow> string" where
  "md5_hexdigest msg = concat (map hex_byte (md5_digest msg))"

definition generate_item_id :: "string \<Rightarrow> string \<Rightarrow> string" where
  "generate_item_id title link = md5_hexdigest (encode (title @ link))"

subsection \<open>Data, state and collaborators\<close>

text \<open>
  Exceptions are values. A \<open>response\<close> is what \<^verbatim>\<open>requests.post\<close> does: it returns a
  response with a status code and a text, or raises. The payload of a request is the
  dictionary \<^verbatim>\<open>data\<close> with its single embed. An \<open>event\<close> is one line printed by the
  program, kept with the values interpolated in it. The \<open>world\<close> holds the requests
  sent so far, each with its outcome, and the lines printed so far; the \<open>bot\<close> holds the
  two mutable fields of the object.

  An \<open>entry\<close> is a parsed feed entry: an attribute that is missing is \<open>None\<close>
  (reading \<^verbatim>\<open>entry.title\<close> or \<^verbatim>\<open>entry.link\<close> then raises \<^verbatim>\<open>AttributeError\<close>);
  \<open>entry_published_parsed\<close> is the time tuple, \<open>None\<close> when the attribute is missing
  or is \<^verbatim>\<open>None\<close>.

  In \<open>env\<close>, \<open>feedparser_parse\<close> gives the entries of a feed or the exception raised;
  \<open>requests_post\<close> gives the outcome of a request, which may depend on the requests sent
  before; \<open>datetime_now k\<close> is the reading of \<^verbatim>\<open>datetime.now()\<close> during the iteration
  \<open>k\<close> of the loop over the entries, in microseconds since 0001-01-01 00:00:00, and
  \<open>utcnow_isoformat k\<close> is \<^verbatim>\<open>datetime.utcnow().isoformat()\<close> in that iteration.
\<close>

datatype py_exception =
    AttributeError string
  | FetchError string
  | TransportError string

datatype response =
    Status int string
  | Raised py_exception

record embed =
  embed_title :: string
  embed_description :: string
  embed_url :: string
  embed_color :: int
  embed_footer_text :: "int list"
  embed_timestamp :: string

record webhook_data =
  embeds :: "embed list"
  username :: "int list"

type_synonym request = "string \<times> webhook_data"

datatype event =
    Checking string string
  | NoEntries string
  | NoWebhook string
  | Posted string string
  | DiscordError string int string
  | NetworkError string py_exception
  | FeedError string py_exception

record world =
  requests :: "(request \<times> response) list"
  stdout :: "event list"

record bot =
  webhooks :: "string \<rightharpoonup> string"
  posted_items :: "string set"

record entry =
  entry_title :: "string option"
  entry_link :: "string option"
  entry_summary :: "string option"
  entry_published_parsed :: "int list option"

record env =
  feedparser_parse :: "string \<Rightarrow> py_exception + entry list"
  requests_post :: "(request \<times> response) list \<Rightarrow> string \<Rightarrow> webhook_data \<Rightarrow> response"
  datetime_now :: "nat \<Rightarrow> int"
  utcnow_isoformat :: "nat \<Rightarrow> string"

subsection \<open>Construction\<close>

text \<open>
  \<^verbatim>\<open>__init__\<close>: the webhooks are read from the environment variables and the entries
  without a value (\<^verbatim>\<open>None\<close> or the empty string) are removed; nothing is posted yet.
\<close>

definition webhook_variables :: "(string \<times> string) list" where
  "webhook_variables =
     [(''cryptography'', ''CRYPTO_WEBHOOK_URL''),
      (''mobile_security'', ''MOBILE_WEBHOOK_URL''),
      (''web_security'', ''WEB_WEBHOOK_URL''),
      (''digital_forensics'', ''FORENSICS_WEBHOOK_URL''),
      (''osint'', ''OSINT_WEBHOOK_URL''),
      (''matlab'', ''MATLAB_WEBHOOK_URL''),
      (''writeups'', ''WRITEUPS_WEBHOOK_URL''),
      (''ctf'', ''CTF_WEBHOOK_URL'')]"

definition feeds :: "(string \<times> string list) list" where
  "feeds =
     [(''cryptography'',
         [''https://blog.cryptographyengineering.com/feed/'',
          ''https://eprint.iacr.org/rss/rss.xml'']),
      (''mobile_security'',
         [''https://blog.zimperium.com/feed/'',
          ''https://www.nowsecure.com/blog/feed/'']),
      (''web_security'',
         [''https://portswigger.net/blog/rss'',
          ''https://blog.detectify.com/feed/'']),
      (''digital_forensics'',
         [''https://forensicfocus.com/feed/'']),
      (''osint'',
         [''https://www.bellingcat.com/feed/'',
          ''https://inteltechniques.com/blog/feed/'']),
      (''writeups'',
         [''https://0x00sec.org/latest.rss'',
          ''https://www.exploit-db.com/rss.xml'']),
      (''ctf'',
         [''https://ctftime.org/event/list/upcoming/rss/''])]"

definition init :: "(string \<rightharpoonup> string) \<Rightarrow> bot" where
  "init getenv =
     \<lparr>webhooks =
        (\<lambda>k. case map_of webhook_variables k of
                None \<Rightarrow> None
              | Some var \<Rightarrow>
                  (case getenv var of
                     None \<Rightarrow> None
                   | Some v \<Rightarrow> if v = [] then None else Some v)),
      posted_items = {}\<rparr>"

subsection \<open>The notifier\<close>

text \<open>
  \<^verbatim>\<open>send_to_discord\<close>. \<open>dict_get\<close> is \<^verbatim>\<open>dict.get(key, default)\<close>; \<open>str_title\<close> is
  \<^verbatim>\<open>str.title()\<close> (a cased character is title-cased after an uncased one, or at the
  start, and lowered after a cased one), with its result as code points since the
  title case of three characters lies beyond U+00FF or has two characters.
  \<open>build_embed\<close> is the dictionary \<^verbatim>\<open>embed\<close> and \<open>build_data\<close> the dictionary
  \<^verbatim>\<open>data\<close> that is posted. The function returns the boolean of the
  source together with the new world; the parameter \<open>i\<close> is the iteration, for the
  clock.
\<close>

definition colors :: "(string \<times> int) list" where
  "colors =
     [(''cryptography'', 0x9932CC),
      (''mobile_security'', 0xFF6347),
      (''web_security'', 0x1E90FF),
      (''digital_forensics'', 0xFF4500),
      (''osint'', 0x20B2AA),
      (''matlab'', 0x0076A8),
      (''writeups'', 0x32CD32),
      (''ctf'', 0xFF1493)]"

definition emojis :: "(string \<times> int list) list" where
  "emojis =
     [(''cryptography'', [0x1F510]),
      (''mobile_security'', [0x1F4F1]),
      (''web_security'', [0x1F310]),
      (''digital_forensics'', [0x1F50D]),
      (''osint'', [0x1F575, 0xFE0F]),
      (''matlab'', [0x1F4CA]),
      (''writeups'', [0x1F4DD]),
      (''ctf'', [0x1F6A9])]"

definition dict_get :: "('k \<times> 'v) list \<Rightarrow> 'k \<Rightarrow> 'v \<Rightarrow> 'v" where
  "dict_get d k fallback = (case map_of d k of None \<Rightarrow> fallback | Some v \<Rightarrow> v)"

definition code_points :: "string \<Rightarrow> int list" where
  "code_points s = map of_char s"

definition str_replace_char :: "char \<Rightarrow> char \<Rightarrow> string \<Rightarrow> string" where
  "str_replace_char old new s = map (\<lambda>c. if c = old then new else c) s"

definition is_cased :: "char \<Rightarrow> bool" where
  "is_cased c =
     (let n = (of_char c :: nat)
      in (65 \<le> n \<and> n \<le> 90) \<or> (97 \<le> n \<and> n \<le> 122) \<or> n = 170 \<or> n = 181 \<or> n = 186
         \<or> (192 \<le> n \<and> n \<le> 214) \<or> (216 \<le> n \<and> n \<le> 246) \<or> 248 \<le> n)"

definition title_char :: "char \<Rightarrow> int list" where
  "title_char c =
     (let n = (of_char c :: int)
      in if (97 \<le> n \<and> n \<le> 122) \<or> (224 \<le> n \<and> n \<le> 246) \<or> (248 \<le> n \<and> n \<le> 254)
         then [n - 32]
         else if n = 181 then [924]
         else if n = 223 then [83, 115]
         else if n = 255 then [376]
         else [n])"

fun title_from :: "bool \<Rightarrow> string \<Rightarrow> int list" where
  "title_from previous_is_cased [] = []"
| "title_from previous_is_cased (c # cs) =
     (if previous_is_cased then [of_char (lower_char c)] else title_char c)
       @ title_from (is_cased c) cs"

definition str_title :: "string \<Rightarrow> int list" where
  "str_title s = title_from False s"

definition build_embed :: "string \<Rightarrow> string \<Rightarrow> string \<Rightarrow> string \<Rightarrow> string \<Rightarrow> embed" where
  "build_embed channel title description url timestamp =
     \<lparr>embed_title = take 256 title,
      embed_description =
        (if description \<noteq> [] then take 2048 description else ''No description available''),
      embed_url = url,
      embed_color = dict_get colors channel 0x808080,
      embed_footer_text =
        dict_get emojis channel [0x1F4E1] @ [32] @ str_title (str_replace_char CHR ''_'' CHR '' '' channel),
      embed_timestamp = timestamp\<rparr>"

definition build_data :: "string \<Rightarrow> string \<Rightarrow> string \<Rightarrow> string \<Rightarrow> string \<Rightarrow> webhook_data" where
  "build_data channel title description url timestamp =
     \<lparr>embeds = [build_embed channel title description url timestamp],
      username = [0x1F510] @ code_points '' CyberSec Intel Hub''\<rparr>"

definition print :: "event \<Rightarrow> world \<Rightarrow> world" where
  "print ev w = w\<lparr>stdout := stdout w @ [ev]\<rparr>"

definition send_to_discord ::
  "env \<Rightarrow> nat \<Rightarrow> bot \<Rightarrow> world \<Rightarrow> string \<Rightarrow> string \<Rightarrow> string \<Rightarrow> string \<Rightarrow> string \<Rightarrow> bool \<times> world" where
  "send_to_discord environment i self w channel title description url category =
     (case webhooks self channel of
        None \<Rightarrow> (False, print (NoWebhook channel) w)
      | Some webhook_url \<Rightarrow>
          if webhook_url = [] then (False, print (NoWebhook channel) w)
          else
            let data = build_data channel title description url
                         (utcnow_isoformat environment i);
                response = requests_post environment (requests w) webhook_url data;
                w' = w\<lparr>requests := requests w @ [((webhook_url, data), response)]\<rparr>
            in case response of
                 Status status_code text \<Rightarrow>
                   if status_code = 204 then (True, print (Posted channel (take 40 title)) w')
                   else (False, print (DiscordError channel status_code text) w')
               | Raised e \<Rightarrow> (False, print (NetworkError channel e) w'))"

subsection \<open>The recency test\<close>

text \<open>
  \<open>datetime args\<close> is the constructor \<^verbatim>\<open>datetime(*args)\<close> for at most six integer
  arguments, with the range checks of the standard library; \<open>None\<close> means that it
  raises (\<^verbatim>\<open>TypeError\<close> below three arguments, \<^verbatim>\<open>ValueError\<close> out of range). A naive
  datetime is represented by its microseconds since 0001-01-01 00:00:00, computed from
  the proleptic Gregorian ordinal as the standard library does, so that comparing
  datetimes is comparing these numbers.

  \<open>is_stale now published_parsed\<close> is the \<^verbatim>\<open>try\<close> block of lines 183 to 189: it is
  true exactly when the \<^verbatim>\<open>continue\<close> of line 187 is reached. Every exception in the
  block is swallowed by the bare \<^verbatim>\<open>except\<close>: the one of the constructor, and the
  \<^verbatim>\<open>OverflowError\<close> of \<^verbatim>\<open>datetime.now() - timedelta(hours=48)\<close> when the result would
  lie before year 1.
\<close>

definition is_leap :: "int \<Rightarrow> bool" where
  "is_leap year = (year mod 4 = 0 \<and> (year mod 100 \<noteq> 0 \<or> year mod 400 = 0))"

definition days_in_month :: "int \<Rightarrow> int \<Rightarrow> int" where
  "days_in_month year month =
     (if month = 2 \<and> is_leap year then 29
      else [31, 28, 31, 30, 31, 30, 31, 31, 30, 31, 30, 31] ! nat (month - 1))"

definition days_before_year :: "int \<Rightarrow> int" where
  "days_before_year year =
     (let y = year - 1 in y * 365 + y div 4 - y div 100 + y div 400)"

definition days_before_month :: "int \<Rightarrow> int \<Rightarrow> int" where
  "days_before_month year month =
     [0, 31, 59, 90, 120, 151, 181, 212, 243, 273, 304, 334] ! nat (month - 1)
       + (if month > 2 \<and> is_leap year then 1 else 0)"

definition ymd2ord :: "int \<Rightarrow> int \<Rightarrow> int \<Rightarrow> int" where
  "ymd2ord year month day = days_before_year year + days_before_month year month + day"

definition hours_48 :: int where
  "hours_48 = 48 * 3600 * 1000000"

fun datetime :: "int list \<Rightarrow> int option" where
  "datetime (year # month # day # rest) =
     (let hour = (case rest of [] \<Rightarrow> 0 | h # _ \<Rightarrow> h);
          minute = (case drop 1 rest of [] \<Rightarrow> 0 | m # _ \<Rightarrow> m);
          second = (case drop 2 rest of [] \<Rightarrow> 0 | s # _ \<Rightarrow> s)
      in if 1 \<le> year \<and> year \<le> 9999 \<and> 1 \<le> month \<and> month \<le> 12
            \<and> 1 \<le> day \<and> day \<le> days_in_month year month
            \<and> 0 \<le> hour \<and> hour \<le> 23 \<and> 0 \<le> minute \<and> minute \<le> 59
            \<and> 0 \<le> second \<and> second \<le> 59
         then Some (((((ymd2ord year month day - 1) * 24 + hour) * 60 + minute) * 60 + second)
                     * 1000000)
         else None)"
| "datetime _ = None"

definition is_stale :: "int \<Rightarrow> int list option \<Rightarrow> bool" where
  "is_stale now published_parsed =
     (case published_parsed of
        None \<Rightarrow> False
      | Some t \<Rightarrow>
          if t = [] then False
          else (case datetime (take 6 t) of
                  None \<Rightarrow> False
                | Some pub_date \<Rightarrow>
                    if now - hours_48 < 0 then False
                    else pub_date < now - hours_48))"

subsection \<open>The feed processor\<close>

text \<open>
  \<^verbatim>\<open>check_single_feed\<close>. \<open>slice_to stop xs\<close> is the slice \<^verbatim>\<open>xs[:stop]\<close>, a negative
  \<open>stop\<close> counting from the end. \<open>loop_body\<close> is one iteration of the \<^verbatim>\<open>for\<close> loop on
  the state (bot, world, \<^verbatim>\<open>new_items\<close>): it ends with \<open>Continue\<close> (the next entry is
  processed, by \<^verbatim>\<open>continue\<close> or at the end of the body), with \<open>Break\<close>, or with an
  exception. \<open>for_entries\<close> is the loop; \<open>check_single_feed\<close> is the whole method with
  its outer \<^verbatim>\<open>try\<close>, which prints the exception and returns.
\<close>

definition slice_to :: "int \<Rightarrow> 'a list \<Rightarrow> 'a list" where
  "slice_to stop xs =
     (if 0 \<le> stop then take (nat stop) xs else take (length xs - nat (- stop)) xs)"

datatype flow = Continue | Break | Raise py_exception

type_synonym feed_state = "bot \<times> world \<times> int"

definition loop_body :: "env \<Rightarrow> string \<Rightarrow> nat \<Rightarrow> entry \<Rightarrow> feed_state \<Rightarrow> flow \<times> feed_state" where
  "loop_body environment base_category i e st =
     (case st of (self, w, new_items) \<Rightarrow>
        case entry_title e of
          None \<Rightarrow> (Raise (AttributeError ''title''), st)
        | Some title \<Rightarrow>
            (case entry_link e of
               None \<Rightarrow> (Raise (AttributeError ''link''), st)
             | Some link \<Rightarrow>
                 let item_id = generate_item_id title link
                 in if item_id \<in> posted_items self then (Continue, st)
                    else if is_stale (datetime_now environment i) (entry_published_parsed e)
                    then (Continue, st)
                    else
                      let summary = (case entry_summary e of None \<Rightarrow> [] | Some s \<Rightarrow> s);
                          target_channel = get_appropriate_channel base_category title summary;
                          (success, w') = send_to_discord environment i self w target_channel
                                            title summary link base_category;
                          (self', new_items') =
                             (if success
                              then (self\<lparr>posted_items := insert item_id (posted_items self)\<rparr>,
                                    new_items + 1)
                              else (self, new_items))
                      in (if new_items' \<ge> 2 then Break else Continue, (self', w', new_items'))))"

fun for_entries ::
  "env \<Rightarrow> string \<Rightarrow> nat \<Rightarrow> entry list \<Rightarrow> feed_state \<Rightarrow> py_exception option \<times> feed_state" where
  "for_entries environment base_category i [] st = (None, st)"
| "for_entries environment base_category i (e # es) st =
     (case loop_body environment base_category i e st of
        (Continue, st') \<Rightarrow> for_entries environment base_category (Suc i) es st'
      | (Break, st') \<Rightarrow> (None, st')
      | (Raise x, st') \<Rightarrow> (Some x, st'))"

definition check_single_feed ::
  "env \<Rightarrow> string \<Rightarrow> string \<Rightarrow> int \<Rightarrow> bot \<Rightarrow> world \<Rightarrow> bot \<times> world" where
  "check_single_feed environment feed_url base_category max_items self w =
     (let w1 = print (Checking base_category feed_url) w
      in case feedparser_parse environment feed_url of
           Inl x \<Rightarrow> (self, print (FeedError feed_url x) w1)
         | Inr entries \<Rightarrow>
             if entries = [] then (self, print (NoEntries feed_url) w1)
             else (case for_entries environment base_category 0 (slice_to max_items entries)
                          (self, w1, 0) of
                     (None, (self', w', new_items)) \<Rightarrow> (self', w')
                   | (Some x, (self', w', new_items)) \<Rightarrow> (self', print (FeedError feed_url x) w')))"

text \<open>A request was delivered when its outcome is a response with status 204.\<close>

definition accepted :: "request \<times> response \<Rightarrow> bool" where
  "accepted rr = (case snd rr of Status status_code text \<Rightarrow> status_code = 204 | Raised e \<Rightarrow> False)"

text \<open>
  \<open>attempt_of seen e rr\<close>: the request \<open>rr\<close> carries the entry \<open>e\<close> (its link, and its
  title cut to 256 characters), and the identifier of \<open>e\<close> is not in \<open>seen\<close>.
\<close>

definition attempt_of :: "string set \<Rightarrow> entry \<Rightarrow> request \<times> response \<Rightarrow> bool" where
  "attempt_of seen e rr =
     (\<exists>title link. entry_title e = Some title \<and> entry_link e = Some link
        \<and> generate_item_id title link \<notin> seen
        \<and> map embed_title (embeds (snd (fst rr))) = [take 256 title]
        \<and> map embed_url (embeds (snd (fst rr))) = [link])"

text \<open>
  \<open>advances es st st'\<close> relates two states of the loop: requests were only appended,
  each for an entry of \<open>es\<close> whose identifier was not yet posted in \<open>st\<close>; the counter
  grew by the number of delivered requests; and the set of posted identifiers grew by
  exactly that many new identifiers, the webhooks staying as they were.
\<close>

definition advances :: "entry list \<Rightarrow> feed_state \<Rightarrow> feed_state \<Rightarrow> bool" where
  "advances es st st' =
     (case st of (self, w, new_items) \<Rightarrow>
      case st' of (self', w', new_items') \<Rightarrow>
        \<exists>new. requests w' = requests w @ new
          \<and> new_items' = new_items + int (length (filter accepted new))
          \<and> webhooks self' = webhooks self
          \<and> posted_items self \<subseteq> posted_items self'
          \<and> finite (posted_items self' - posted_items self)
          \<and> int (card (posted_items self' - posted_items self)) = new_items' - new_items
          \<and> (\<forall>rr \<in> set new. \<exists>e \<in> set es. attempt_of (posted_items self) e rr))"

subsection \<open>A sample feed\<close>

text \<open>
  Concrete collaborators on which the properties below are exercised: a feed whose two
  entries are the same article, a webhook for the channel "writeups" only, and a
  transport that answers every request with the given response. \<open>colliding_entries\<close>
  are the entries of a feed with two different articles.
\<close>

definition sample_entry :: entry where
  "sample_entry =
     \<lparr>entry_title = Some ''CTF Writeup: Pwning the Box'',
      entry_link = Some ''https://example.org/box'',
      entry_summary = None,
      entry_published_parsed = Some [2026, 11, 1, 12, 0, 1, 6, 305, 0]\<rparr>"

definition sample_env :: "response \<Rightarrow> env" where
  "sample_env answer =
     \<lparr>feedparser_parse = (\<lambda>feed_url. Inr [sample_entry, sample_entry]),
      requests_post = (\<lambda>history webhook_url data. answer),
      datetime_now = (\<lambda>k. 63929304000000000),
      utcnow_isoformat = (\<lambda>k. ''2026-11-03T12:00:00'')\<rparr>"


definition sample_bot :: bot where
  "sample_bot =
     \<lparr>webhooks = [''writeups'' \<mapsto> ''https://example.org/hook''], posted_items = {}\<rparr>"

definition sample_world :: world where
  "sample_world = \<lparr>requests = [], stdout = []\<rparr>"

section \<open>Properties\<close>

subsection \<open>Substring tests and keyword scores\<close>

lemma startswith_iff: "startswith text sub \<longleftrightarrow> (\<exists>after. text = sub @ after)"
  by (induction "text" sub rule: startswith.induct) auto

lemma str_in_iff: "str_in sub text \<longleftrightarrow> occurs_in sub text"
proof (induction "text")
  case Nil
  show ?case by (auto simp: occurs_in_def)
next
  case (Cons c cs)
  show ?case
  proof
    assume "str_in sub (c # cs)"
    then consider "startswith (c # cs) sub" | "str_in sub cs" by auto
    then show "occurs_in sub (c # cs)"
    proof cases
      case 1
      then obtain after where "c # cs = sub @ after" by (auto simp: startswith_iff)
      then have "c # cs = [] @ sub @ after" by simp
      then show ?thesis unfolding occurs_in_def by blast
    next
      case 2
      then obtain before after where "cs = before @ sub @ after"
        using Cons.IH by (auto simp: occurs_in_def)
      then have "c # cs = (c # before) @ sub @ after" by simp
      then show ?thesis unfolding occurs_in_def by blast
    qed
  next
    assume "occurs_in sub (c # cs)"
    then obtain before after where eq: "c # cs = before @ sub @ after"
      by (auto simp: occurs_in_def)
    show "str_in sub (c # cs)"
    proof (cases before)
      case Nil
      with eq have "startswith (c # cs) sub" by (auto simp: startswith_iff)
      then show ?thesis by simp
    next
      case (Cons b bs)
      with eq have "cs = bs @ sub @ after" by simp
      then have "occurs_in sub cs" unfolding occurs_in_def by blast
      then show ?thesis using Cons.IH by simp
    qed
  qed
qed

lemma map_eq_append3:
  assumes "map f xs = a @ k @ c"
  shows "\<exists>b w r. xs = b @ w @ r \<and> map f w = k"
proof -
  let ?w = "take (length k) (drop (length a) xs)"
  have "map f ?w = take (length k) (drop (length a) (map f xs))"
    by (simp add: take_map drop_map)
  also have "\<dots> = k" by (simp add: assms)
  finally have "map f ?w = k" .
  moreover have "xs = take (length a) xs @ ?w @ drop (length k) (drop (length a) xs)"
    by (simp only: append_take_drop_id)
  ultimately show ?thesis by blast
qed

lemma str_in_lower_iff: "str_in keyword (str_lower text) \<longleftrightarrow> occurs_ignoring_case keyword text"
proof
  assume "str_in keyword (str_lower text)"
  then obtain before after where "map lower_char text = before @ keyword @ after"
    by (auto simp: str_in_iff occurs_in_def str_lower_def)
  then obtain b w a where "text = b @ w @ a" "map lower_char w = keyword"
    using map_eq_append3 by metis
  then show "occurs_ignoring_case keyword text"
    unfolding occurs_ignoring_case_def str_lower_def by blast
next
  assume "occurs_ignoring_case keyword text"
  then obtain b w a where "text = b @ w @ a" "str_lower w = keyword"
    unfolding occurs_ignoring_case_def by blast
  then have "str_lower text = str_lower b @ keyword @ str_lower a"
    by (simp add: str_lower_def)
  then show "str_in keyword (str_lower text)"
    unfolding str_in_iff occurs_in_def by blast
qed

lemma keyword_score_length:
  "keyword_score keywords text = int (length (filter (\<lambda>keyword. str_in keyword text) keywords))"
  unfolding keyword_score_def by (induction "keywords") auto

lemma keyword_score_card:
  assumes "distinct keywords"
  shows "keyword_score keywords text = int (card {k \<in> set keywords. occurs_in k text})"
proof -
  have "distinct (filter (\<lambda>k. str_in k text) keywords)"
    using assms by simp
  then have "card (set (filter (\<lambda>k. str_in k text) keywords))
      = length (filter (\<lambda>k. str_in k text) keywords)"
    by (rule distinct_card)
  then show ?thesis by (simp add: keyword_score_length str_in_iff)
qed

subsection \<open>The digest\<close>

lemma length_le_bytes: "length (le_bytes k w) = k"
  by (simp add: le_bytes_def)

lemma length_md5_digest: "length (md5_digest msg) = 16"
  by (simp add: md5_digest_def length_le_bytes split: prod.splits)

lemma length_concat_hex_byte: "length (concat (map hex_byte bs)) = 2 * length bs"
  by (induction bs) (simp_all add: hex_byte_def)

lemma length_md5_hexdigest: "length (md5_hexdigest msg) = 32"
  by (simp add: md5_hexdigest_def length_concat_hex_byte length_md5_digest)

lemma hex_digit_mem: "n < 16 \<Longrightarrow> hex_digit n \<in> set ''0123456789abcdef''"
  unfolding hex_digit_def by (rule nth_mem) simp

lemma low_nibble_bound: "unat ((b :: byte) AND 0x0f) < 16"
proof -
  have "unat (b AND 15) \<le> unat (15 :: byte)"
    by (rule word_and_le1 [THEN word_le_nat_alt [THEN iffD1]])
  then show ?thesis by simp
qed

lemma high_nibble_bound: "unat (drop_bit 4 (b :: byte)) < 16"
proof -
  have "unat b < 2 ^ 8" using unsigned_less [of b] by simp
  then have "unat b < 16 * 16" by simp
  then have "unat b div 16 < 16" by (rule less_mult_imp_div_less)
  moreover have "unat (drop_bit 4 b) = unat b div 2 ^ 4"
    unfolding unat_drop_bit_eq by (rule drop_bit_eq_div)
  ultimately show ?thesis by simp
qed

lemma hex_byte_chars: "set (hex_byte b) \<subseteq> set ''0123456789abcdef''"
proof -
  have "hex_digit (unat (drop_bit 4 b)) \<in> set ''0123456789abcdef''"
    by (rule hex_digit_mem [OF high_nibble_bound])
  moreover have "hex_digit (unat (b AND 0x0f)) \<in> set ''0123456789abcdef''"
    by (rule hex_digit_mem [OF low_nibble_bound])
  ultimately show ?thesis
    unfolding hex_byte_def by (simp only: list.set insert_subset empty_subsetI simp_thms)
qed

lemma md5_hexdigest_chars: "set (md5_hexdigest msg) \<subseteq> set ''0123456789abcdef''"
proof
  fix c
  assume "c \<in> set (md5_hexdigest msg)"
  then obtain b where "c \<in> set (hex_byte b)"
    unfolding md5_hexdigest_def by (auto simp only: set_concat set_map)
  then show "c \<in> set ''0123456789abcdef''"
    by (rule subsetD [OF hex_byte_chars])
qed








subsection \<open>Keyword lists\<close>

lemma beginner_keywords_distinct: "distinct beginner_keywords"
  by (simp add: beginner_keywords_def)

lemma intermediate_keywords_distinct: "distinct intermediate_keywords"
  by (simp add: intermediate_keywords_def)

lemma keyword_score_card_ignoring_case:
  assumes "distinct kws"
  shows "keyword_score kws (str_lower s)
           = int (card {k \<in> set kws. occurs_ignoring_case k s})"
proof -
  have "{k \<in> set kws. occurs_in k (str_lower s)} = {k \<in> set kws. occurs_ignoring_case k s}"
    using str_in_lower_iff str_in_iff by blast
  with keyword_score_card [OF assms, of "str_lower s"] show ?thesis by simp
qed

lemma any_keyword_iff:
  "list_ex (\<lambda>keyword. str_in keyword (str_lower a) \<or> str_in keyword (str_lower b)) kws
     \<longleftrightarrow> (\<exists>keyword \<in> set kws. occurs_ignoring_case keyword a \<or> occurs_ignoring_case keyword b)"
  by (simp add: list_ex_iff str_in_lower_iff)

subsection \<open>Routing\<close>

text \<open>
  C4. The channel router applies its rules in order, the first match winning: a title or
  description containing one of "writeup", "write-up", "walkthrough", "solution"
  (ignoring case) goes to "writeups"; otherwise one containing "ctf", "capture the flag",
  "competition" or "challenge" goes to "ctf"; otherwise the source category is returned
  unchanged. A title with both kinds of keyword, such as "CTF Writeup: Pwning the Box",
  goes to "writeups".
\<close>

theorem get_appropriate_channel_first_match:
  "get_appropriate_channel category title description =
     (if \<exists>keyword \<in> {''writeup'', ''write-up'', ''walkthrough'', ''solution''}.
           occurs_ignoring_case keyword title \<or> occurs_ignoring_case keyword description
      then ''writeups''
      else if \<exists>keyword \<in> {''ctf'', ''capture the flag'', ''competition'', ''challenge''}.
           occurs_ignoring_case keyword title \<or> occurs_ignoring_case keyword description
      then ''ctf''
      else category)
   \<and> get_appropriate_channel category ''CTF Writeup: Pwning the Box'' description = ''writeups''"
proof
  have w: "set writeup_keywords = {''writeup'', ''write-up'', ''walkthrough'', ''solution''}"
    by (simp add: writeup_keywords_def)
  have c: "set ctf_keywords = {''ctf'', ''capture the flag'', ''competition'', ''challenge''}"
    by (simp add: ctf_keywords_def)
  show "get_appropriate_channel category title description =
     (if \<exists>keyword \<in> {''writeup'', ''write-up'', ''walkthrough'', ''solution''}.
           occurs_ignoring_case keyword title \<or> occurs_ignoring_case keyword description
      then ''writeups''
      else if \<exists>keyword \<in> {''ctf'', ''capture the flag'', ''competition'', ''challenge''}.
           occurs_ignoring_case keyword title \<or> occurs_ignoring_case keyword description
      then ''ctf''
      else category)"
    unfolding get_appropriate_channel_def Let_def any_keyword_iff w c ..
  show "get_appropriate_channel category ''CTF Writeup: Pwning the Box'' description = ''writeups''"
    by (simp add: get_appropriate_channel_def writeup_keywords_def str_lower_def)
qed

theorem get_appropriate_channel_first_match_witness:
  "get_appropriate_channel ''cryptography'' ''Upcoming CTF Challenge This Weekend'' [] = ''ctf''
   \<and> get_appropriate_channel ''cryptography'' ''New Zero-Day in OpenSSL'' [] = ''cryptography''
   \<and> get_appropriate_channel ''cryptography'' ''CTF Writeup: Pwning the Box'' [] = ''writeups''"
  using get_appropriate_channel_first_match [of "''cryptography''" "''CTF Writeup: Pwning the Box''" "[]"]
  by (simp add: get_appropriate_channel_def writeup_keywords_def ctf_keywords_def str_lower_def)

subsection \<open>Classification\<close>

text \<open>
  C5. The difficulty classifier is a total function that returns exactly one of the three
  labels: "beginner" when the beginner score strictly exceeds the intermediate score,
  otherwise "intermediate" when the intermediate score is strictly positive, otherwise
  "general".
\<close>

theorem classify_difficulty_decision_rule:
  "classify_difficulty title description \<in> {''beginner'', ''intermediate'', ''general''}
   \<and> (classify_difficulty title description = ''beginner''
        \<longleftrightarrow> beginner_score title description > intermediate_score title description)
   \<and> (classify_difficulty title description = ''intermediate''
        \<longleftrightarrow> \<not> beginner_score title description > intermediate_score title description
            \<and> intermediate_score title description > 0)
   \<and> (classify_difficulty title description = ''general''
        \<longleftrightarrow> \<not> beginner_score title description > intermediate_score title description
            \<and> \<not> intermediate_score title description > 0)"
  by (simp add: classify_difficulty_def)

theorem classify_difficulty_decision_rule_witness:
  "classify_difficulty ''Introduction to Buffer Overflows'' [] = ''beginner''
   \<and> classify_difficulty ''Advanced Exploitation Techniques: Deep Dive'' [] = ''intermediate''
   \<and> classify_difficulty ''New Zero-Day in OpenSSL'' [] = ''general''"
  using classify_difficulty_decision_rule [of "''Introduction to Buffer Overflows''" "[]"]
  by (simp add: classify_difficulty_def beginner_score_def intermediate_score_def
        keyword_score_def difficulty_text_def str_lower_def
        beginner_keywords_def intermediate_keywords_def)

subsection \<open>What the scores count\<close>

text \<open>
  C6, as the code has it. Each score is the number of configured keywords that occur at
  least once, ignoring case, in the title and description joined by a space; a keyword
  that occurs twice still contributes 1. The text "Advanced Exploitation Techniques: Deep
  Dive" scores 0 beginner and 3 intermediate hits ("advanced", "deep dive",
  "exploitation").
\<close>

theorem keyword_scores_count_present_keywords:
  "beginner_score title description
     = int (card {k \<in> set beginner_keywords.
                    occurs_ignoring_case k (title @ '' '' @ description)})
   \<and> intermediate_score title description
     = int (card {k \<in> set intermediate_keywords.
                    occurs_ignoring_case k (title @ '' '' @ description)})
   \<and> beginner_score ''Advanced Exploitation Techniques: Deep Dive'' [] = 0
   \<and> intermediate_score ''Advanced Exploitation Techniques: Deep Dive'' [] = 3
   \<and> intermediate_score ''bypass bypass'' [] = 1"
proof (intro conjI)
  show "beginner_score title description
     = int (card {k \<in> set beginner_keywords.
                    occurs_ignoring_case k (title @ '' '' @ description)})"
    unfolding beginner_score_def difficulty_text_def
    by (rule keyword_score_card_ignoring_case [OF beginner_keywords_distinct])
  show "intermediate_score title description
     = int (card {k \<in> set intermediate_keywords.
                    occurs_ignoring_case k (title @ '' '' @ description)})"
    unfolding intermediate_score_def difficulty_text_def
    by (rule keyword_score_card_ignoring_case [OF intermediate_keywords_distinct])
  show "beginner_score ''Advanced Exploitation Techniques: Deep Dive'' [] = 0"
    by (simp add: beginner_score_def keyword_score_def difficulty_text_def str_lower_def
          beginner_keywords_def)
  show "intermediate_score ''Advanced Exploitation Techniques: Deep Dive'' [] = 3"
    by (simp add: intermediate_score_def keyword_score_def difficulty_text_def str_lower_def
          intermediate_keywords_def)
  show "intermediate_score ''bypass bypass'' [] = 1"
    by (simp add: intermediate_score_def keyword_score_def difficulty_text_def str_lower_def
          intermediate_keywords_def)
qed

theorem keyword_scores_count_present_keywords_witness:
  "intermediate_score ''Bypass analysis'' ''advanced BYPASS''
     = int (card {k \<in> set intermediate_keywords.
                    occurs_ignoring_case k (''Bypass analysis'' @ '' '' @ ''advanced BYPASS'')})
   \<and> intermediate_score ''Bypass analysis'' ''advanced BYPASS'' = 3"
  using keyword_scores_count_present_keywords [of "''Bypass analysis''" "''advanced BYPASS''"]
  by (simp add: intermediate_score_def keyword_score_def difficulty_text_def str_lower_def
        intermediate_keywords_def)

theorem keyword_scores_occurrences_counterexample:
  "intermediate_score ''Advanced Exploitation Techniques: Deep Dive'' [] \<noteq> 2
   \<and> spec_occurrence_score intermediate_keywords (difficulty_text ''bypass bypass'' []) = 2
   \<and> intermediate_score ''bypass bypass'' [] \<noteq> 2"
  by (simp add: intermediate_score_def keyword_score_def spec_occurrence_score_def
        difficulty_text_def str_lower_def intermediate_keywords_def)

subsection \<open>The item identifier\<close>

text \<open>
  What holds of the identifier as the code computes it: it has 32 characters, all of
  them lower-case hexadecimal digits, and it is a function of the concatenation of the
  title and the link.
\<close>

lemma generate_item_id_fingerprint:
  "length (generate_item_id title link) = 32
   \<and> set (generate_item_id title link) \<subseteq> set ''0123456789abcdef''
   \<and> (title @ link = title' @ link'
        \<longrightarrow> generate_item_id title link = generate_item_id title' link')"
proof (intro conjI impI)
  show "length (generate_item_id title link) = 32"
    by (simp add: generate_item_id_def length_md5_hexdigest)
  show "set (generate_item_id title link) \<subseteq> set ''0123456789abcdef''"
    unfolding generate_item_id_def by (rule md5_hexdigest_chars)
  show "generate_item_id title link = generate_item_id title' link'"
    if "title @ link = title' @ link'"
    using that by (simp add: generate_item_id_def)
qed


subsection \<open>The notifier\<close>

lemma send_to_discord_unconfigured:
  assumes "webhooks self channel = None \<or> webhooks self channel = Some []"
  shows "send_to_discord environment i self w channel title description url category
           = (False, w\<lparr>stdout := stdout w @ [NoWebhook channel]\<rparr>)"
  using assms by (auto simp: send_to_discord_def print_def)

lemma send_to_discord_configured:
  assumes "webhooks self channel = Some webhook_url" and "webhook_url \<noteq> []"
  shows "send_to_discord environment i self w channel title description url category
           = (let data = build_data channel title description url
                           (utcnow_isoformat environment i);
                  response = requests_post environment (requests w) webhook_url data
              in (accepted ((webhook_url, data), response),
                  w\<lparr>requests := requests w @ [((webhook_url, data), response)],
                    stdout := stdout w @
                      [case response of
                         Status status_code text \<Rightarrow>
                           if status_code = 204 then Posted channel (take 40 title)
                           else DiscordError channel status_code text
                       | Raised e \<Rightarrow> NetworkError channel e]\<rparr>))"
  using assms
  by (simp add: send_to_discord_def print_def accepted_def Let_def split: response.splits)

lemma send_to_discord_requests:
  "requests (snd (send_to_discord environment i self w channel title description url category))
     = requests w
   \<and> \<not> fst (send_to_discord environment i self w channel title description url category)
   \<or> (\<exists>rr. requests (snd (send_to_discord environment i self w channel title description url
                              category)) = requests w @ [rr]
          \<and> fst (send_to_discord environment i self w channel title description url category)
              = accepted rr
          \<and> map embed_title (embeds (snd (fst rr))) = [take 256 title]
          \<and> map embed_url (embeds (snd (fst rr))) = [url])"
proof (cases "webhooks self channel = None \<or> webhooks self channel = Some []")
  case True
  then show ?thesis by (simp add: send_to_discord_unconfigured)
next
  case False
  then obtain webhook_url where u: "webhooks self channel = Some webhook_url" "webhook_url \<noteq> []"
    by auto
  show ?thesis
    by (rule disjI2)
       (simp add: send_to_discord_configured [OF u] Let_def build_data_def build_embed_def)
qed

subsection \<open>One iteration of the loop over the entries\<close>

lemma loop_body_skip:
  assumes "entry_title e = Some title" and "entry_link e = Some link"
    and "generate_item_id title link \<in> posted_items self
         \<or> is_stale (datetime_now environment i) (entry_published_parsed e)"
  shows "loop_body environment base_category i e (self, w, new_items)
           = (Continue, (self, w, new_items))"
  using assms by (auto simp: loop_body_def Let_def)

lemma loop_body_send:
  assumes "entry_title e = Some title" and "entry_link e = Some link"
    and "generate_item_id title link \<notin> posted_items self"
    and "\<not> is_stale (datetime_now environment i) (entry_published_parsed e)"
  shows "loop_body environment base_category i e (self, w, new_items)
           = (let summary = (case entry_summary e of None \<Rightarrow> [] | Some s \<Rightarrow> s);
                  r = send_to_discord environment i self w
                        (get_appropriate_channel base_category title summary)
                        title summary link base_category;
                  new_items' = (if fst r then new_items + 1 else new_items)
              in (if new_items' \<ge> 2 then Break else Continue,
                  (if fst r
                   then self\<lparr>posted_items := insert (generate_item_id title link)
                                                 (posted_items self)\<rparr>
                   else self,
                   snd r, new_items')))"
  using assms by (simp add: loop_body_def Let_def split: prod.splits)

lemma loop_body_raise:
  assumes "entry_title e = None \<or> entry_link e = None"
  shows "\<exists>x. loop_body environment base_category i e st = (Raise x, st)"
  using assms by (auto simp: loop_body_def split: prod.splits option.splits)

lemma advances_refl: "advances es st st"
  by (auto simp: advances_def split: prod.splits)

lemma advances_trans:
  assumes "advances [e] st st1" and "advances es st1 st2"
  shows "advances (e # es) st st2"
proof -
  obtain self w n where st: "st = (self, w, n)" by (cases st) auto
  obtain self1 w1 n1 where st1: "st1 = (self1, w1, n1)" by (cases st1) auto
  obtain self2 w2 n2 where st2: "st2 = (self2, w2, n2)" by (cases st2) auto
  from assms(1) obtain new1 where a:
    "requests w1 = requests w @ new1"
    "n1 = n + int (length (filter accepted new1))"
    "posted_items self \<subseteq> posted_items self1"
    "finite (posted_items self1 - posted_items self)"
    "int (card (posted_items self1 - posted_items self)) = n1 - n"
    "\<forall>rr \<in> set new1. attempt_of (posted_items self) e rr"
    "webhooks self1 = webhooks self"
    unfolding st st1 advances_def by auto
  from assms(2) obtain new2 where b:
    "requests w2 = requests w1 @ new2"
    "n2 = n1 + int (length (filter accepted new2))"
    "posted_items self1 \<subseteq> posted_items self2"
    "finite (posted_items self2 - posted_items self1)"
    "int (card (posted_items self2 - posted_items self1)) = n2 - n1"
    "\<forall>rr \<in> set new2. \<exists>e' \<in> set es. attempt_of (posted_items self1) e' rr"
    "webhooks self2 = webhooks self1"
    unfolding st1 st2 advances_def by auto
  let ?P = "posted_items self" and ?P1 = "posted_items self1" and ?P2 = "posted_items self2"
  have split: "?P2 - ?P = (?P2 - ?P1) \<union> (?P1 - ?P)" and disj: "(?P2 - ?P1) \<inter> (?P1 - ?P) = {}"
    using a(3) b(3) by auto
  have card: "card (?P2 - ?P) = card (?P2 - ?P1) + card (?P1 - ?P)"
    unfolding split by (rule card_Un_disjoint [OF b(4) a(4) disj])
  have weaken: "attempt_of ?P e' rr" if "attempt_of ?P1 e' rr" for e' rr
    using that a(3) unfolding attempt_of_def by (meson subsetD)
  have "requests w2 = requests w @ (new1 @ new2)"
    using a(1) b(1) by simp
  moreover have "n2 = n + int (length (filter accepted (new1 @ new2)))"
    using a(2) b(2) by simp
  moreover have "?P \<subseteq> ?P2" using a(3) b(3) by blast
  moreover have "webhooks self2 = webhooks self" using a(7) b(7) by simp
  moreover have "finite (?P2 - ?P)" unfolding split using a(4) b(4) by simp
  moreover have "int (card (?P2 - ?P)) = n2 - n" using card a(5) b(5) by simp
  moreover have "\<forall>rr \<in> set (new1 @ new2). \<exists>e' \<in> set (e # es). attempt_of ?P e' rr"
  proof
    fix rr
    assume "rr \<in> set (new1 @ new2)"
    then consider "rr \<in> set new1" | "rr \<in> set new2" by auto
    then show "\<exists>e' \<in> set (e # es). attempt_of ?P e' rr"
    proof cases
      case 1
      with a(6) show ?thesis by auto
    next
      case 2
      with b(6) obtain e' where "e' \<in> set es" "attempt_of ?P1 e' rr" by blast
      with weaken [of e' rr] show ?thesis by auto
    qed
  qed
  ultimately show ?thesis unfolding st st2 advances_def by blast
qed

lemma loop_body_advances:
  assumes "loop_body environment base_category i e (self, w, n) = (fl, st')"
  shows "advances [e] (self, w, n) st'"
proof (cases "\<exists>title link. entry_title e = Some title \<and> entry_link e = Some link")
  case False
  then have "entry_title e = None \<or> entry_link e = None" by auto
  from loop_body_raise [OF this, of environment base_category i "(self, w, n)"]
  obtain x where "loop_body environment base_category i e (self, w, n) = (Raise x, (self, w, n))"
    by blast
  with assms have "st' = (self, w, n)" by simp
  then show ?thesis by (simp add: advances_refl)
next
  case True
  then obtain title link where t: "entry_title e = Some title" and l: "entry_link e = Some link"
    by blast
  show ?thesis
  proof (cases "generate_item_id title link \<in> posted_items self
         \<or> is_stale (datetime_now environment i) (entry_published_parsed e)")
    case True
    from loop_body_skip [OF t l True, of base_category w n] assms
    have "st' = (self, w, n)" by simp
    then show ?thesis by (simp add: advances_refl)
  next
    case False
    define summary where "summary = (case entry_summary e of None \<Rightarrow> [] | Some s \<Rightarrow> s)"
    define r where "r = send_to_discord environment i self w
                      (get_appropriate_channel base_category title summary)
                      title summary link base_category"
    from False have unseen: "generate_item_id title link \<notin> posted_items self"
      and fresh: "\<not> is_stale (datetime_now environment i) (entry_published_parsed e)"
      by auto
    have "loop_body environment base_category i e (self, w, n)
            = (if (if fst r then n + 1 else n) \<ge> 2 then Break else Continue,
               (if fst r
                then self\<lparr>posted_items := insert (generate_item_id title link)
                                              (posted_items self)\<rparr>
                else self,
                snd r, if fst r then n + 1 else n))"
      unfolding loop_body_send [OF t l unseen fresh] Let_def r_def summary_def ..
    with assms
    have st': "st' = (if fst r
                 then self\<lparr>posted_items := insert (generate_item_id title link)
                                               (posted_items self)\<rparr>
                 else self,
                 snd r, if fst r then n + 1 else n)"
      by simp
    have "requests (snd r) = requests w \<and> \<not> fst r
          \<or> (\<exists>rr. requests (snd r) = requests w @ [rr] \<and> fst r = accepted rr
                \<and> map embed_title (embeds (snd (fst rr))) = [take 256 title]
                \<and> map embed_url (embeds (snd (fst rr))) = [link])"
      unfolding r_def by (rule send_to_discord_requests)
    then consider (quiet) "requests (snd r) = requests w" "\<not> fst r"
      | (sent) rr where "requests (snd r) = requests w @ [rr]" "fst r = accepted rr"
          "map embed_title (embeds (snd (fst rr))) = [take 256 title]"
          "map embed_url (embeds (snd (fst rr))) = [link]"
      by (elim disjE exE conjE)
    then show ?thesis
    proof cases
      case quiet
      then have "st' = (self, snd r, n)" using st' by simp
      moreover have "advances [e] (self, w, n) (self, snd r, n)"
        unfolding advances_def prod.case
        by (rule exI [of _ "[]"]) (simp add: quiet)
      ultimately show ?thesis by simp
    next
      case sent
      have att: "attempt_of (posted_items self) e rr"
        unfolding attempt_of_def
        by (rule exI [of _ title], rule exI [of _ link]) (simp add: t l unseen sent(3,4))
      show ?thesis
      proof (cases "accepted rr")
        case False
        with sent(2) st' have "st' = (self, snd r, n)" by simp
        moreover have "advances [e] (self, w, n) (self, snd r, n)"
          unfolding advances_def prod.case
          by (rule exI [of _ "[rr]"]) (simp add: sent(1) False att)
        ultimately show ?thesis by simp
      next
        case True
        have diff: "insert (generate_item_id title link) (posted_items self) - posted_items self
                      = {generate_item_id title link}"
          using unseen by auto
        from True sent(2) st'
        have "st' = (self\<lparr>posted_items := insert (generate_item_id title link)
                                               (posted_items self)\<rparr>, snd r, n + 1)"
          by simp
        moreover have "advances [e] (self, w, n)
                (self\<lparr>posted_items := insert (generate_item_id title link)
                                               (posted_items self)\<rparr>, snd r, n + 1)"
          unfolding advances_def prod.case
          by (rule exI [of _ "[rr]"]) (simp add: sent(1) True att diff subset_insertI)
        ultimately show ?thesis by simp
      qed
    qed
  qed
qed

lemma loop_body_counter:
  assumes "loop_body environment base_category i e (self, w, n) = (fl, (self', w', n'))"
    and "n < 2"
  shows "n' \<le> 2 \<and> (fl = Continue \<longrightarrow> n' < 2)"
proof (cases "\<exists>title link. entry_title e = Some title \<and> entry_link e = Some link")
  case False
  then have "entry_title e = None \<or> entry_link e = None" by auto
  from loop_body_raise [OF this, of environment base_category i "(self, w, n)"] assms
  show ?thesis by auto
next
  case True
  then obtain title link where t: "entry_title e = Some title" and l: "entry_link e = Some link"
    by blast
  show ?thesis
  proof (cases "generate_item_id title link \<in> posted_items self
         \<or> is_stale (datetime_now environment i) (entry_published_parsed e)")
    case True
    from loop_body_skip [OF t l True] assms show ?thesis by auto
  next
    case False
    then have unseen: "generate_item_id title link \<notin> posted_items self"
      and fresh: "\<not> is_stale (datetime_now environment i) (entry_published_parsed e)"
      by auto
    from loop_body_send [OF t l unseen fresh, of base_category w n] assms
    show ?thesis by (auto simp: Let_def split: if_splits)
  qed
qed

subsection \<open>The loop\<close>

lemma for_entries_advances:
  assumes "for_entries environment base_category i es (self, w, n) = (r, st')" and "n < 2"
  shows "advances es (self, w, n) st' \<and> snd (snd st') \<le> 2"
  using assms
proof (induction es arbitrary: i self w n)
  case Nil
  then show ?case by (auto simp: advances_refl)
next
  case (Cons e es)
  obtain fl self1 w1 n1 where step:
    "loop_body environment base_category i e (self, w, n) = (fl, (self1, w1, n1))"
    by (metis prod_cases3 surj_pair)
  from loop_body_advances [OF step] have adv1: "advances [e] (self, w, n) (self1, w1, n1)" .
  from loop_body_counter [OF step Cons.prems(2)]
  have cnt: "n1 \<le> 2" "fl = Continue \<Longrightarrow> n1 < 2" by auto
  show ?case
  proof (cases fl)
    case Continue
    with Cons.prems(1) step
    have rest: "for_entries environment base_category (Suc i) es (self1, w1, n1) = (r, st')"
      by simp
    from Cons.IH [OF rest cnt(2) [OF Continue]]
    have "advances es (self1, w1, n1) st'" and "snd (snd st') \<le> 2" by auto
    with advances_trans [OF adv1] show ?thesis by blast
  next
    case Break
    with Cons.prems(1) step have "st' = (self1, w1, n1)" by simp
    with advances_trans [OF adv1 advances_refl] cnt(1) show ?thesis by simp
  next
    case (Raise x)
    with Cons.prems(1) step have "st' = (self1, w1, n1)" by simp
    with advances_trans [OF adv1 advances_refl] cnt(1) show ?thesis by simp
  qed
qed

subsection \<open>Dates\<close>

lemma days_before_year_nonneg:
  assumes "1 \<le> year"
  shows "0 \<le> days_before_year year"
proof -
  have lin: "0 \<le> a * 365 + d4 - d100 + d400"
    if "0 \<le> a" "d100 \<le> a" "0 \<le> d4" "0 \<le> d400" for a d4 d100 d400 :: int
    using that by linarith
  from assms have y: "0 \<le> year - 1" by simp
  then have "(year - 1) div 100 \<le> year - 1" and "0 \<le> (year - 1) div 4"
    and "0 \<le> (year - 1) div 400"
    by simp_all
  with y show ?thesis unfolding days_before_year_def Let_def by (intro lin)
qed

lemma days_before_month_nonneg:
  assumes "1 \<le> month" and "month \<le> 12"
  shows "0 \<le> days_before_month year month"
proof -
  from assms have "month \<in> {1, 2, 3, 4, 5, 6, 7, 8, 9, 10, 11, 12}" by simp presburger
  then show ?thesis by (auto simp: days_before_month_def)
qed

lemma datetime_nonneg:
  assumes "datetime args = Some pub_date"
  shows "0 \<le> pub_date"
proof (cases "\<exists>year month day rest. args = year # month # day # rest")
  case False
  then have "datetime args = None"
    by (cases args rule: datetime.cases) simp_all
  with assms show ?thesis by simp
next
  case True
  then obtain year month day rest where 1: "args = year # month # day # rest"
    by blast
  define hour where "hour = (case rest of [] \<Rightarrow> 0 | h # _ \<Rightarrow> h)"
  define minute where "minute = (case drop 1 rest of [] \<Rightarrow> 0 | m # _ \<Rightarrow> m)"
  define second where "second = (case drop 2 rest of [] \<Rightarrow> 0 | s # _ \<Rightarrow> s)"
  from assms 1 have ok: "1 \<le> year" "1 \<le> month" "month \<le> 12" "1 \<le> day"
      "0 \<le> hour" "0 \<le> minute" "0 \<le> second"
    and p: "pub_date = ((((ymd2ord year month day - 1) * 24 + hour) * 60 + minute) * 60 + second)
                     * 1000000"
    by (auto simp: Let_def hour_def minute_def second_def split: if_splits)
  have "0 \<le> ymd2ord year month day - 1"
    using days_before_year_nonneg [OF ok(1)] days_before_month_nonneg [OF ok(2,3), of year] ok(4)
    by (simp add: ymd2ord_def)
  then have "0 \<le> ((((ymd2ord year month day - 1) * 24 + hour) * 60 + minute) * 60 + second)"
    using ok(5-7) by simp
  then show ?thesis unfolding p by simp
qed

lemma is_stale_iff:
  assumes "t \<noteq> []" and "datetime (take 6 t) = Some pub_date"
  shows "is_stale now (Some t) \<longleftrightarrow> \<not> now - pub_date \<le> hours_48"
  using assms datetime_nonneg [OF assms(2)]
  by (auto simp: is_stale_def)

subsection \<open>The whole method\<close>

lemma advances_requests_cong:
  assumes "advances es (self, w1, n) (self', w1', n')"
    and "requests w = requests w1" and "requests w' = requests w1'"
  shows "advances es (self, w, n) (self', w', n')"
  using assms by (simp add: advances_def)

lemma check_single_feed_advances:
  assumes "check_single_feed environment feed_url base_category max_items self w = (self', w')"
  shows "\<exists>n'. n' \<le> 2
           \<and> advances (case feedparser_parse environment feed_url of
                          Inl x \<Rightarrow> [] | Inr entries \<Rightarrow> slice_to max_items entries)
                 (self, w, 0) (self', w', n')"
proof (cases "feedparser_parse environment feed_url")
  case (Inl x)
  with assms have "self' = self" and "requests w' = requests w"
    by (auto simp: check_single_feed_def print_def)
  with advances_requests_cong [OF advances_refl [of _ "(self, w, 0)"], of w w']
  have "advances (case feedparser_parse environment feed_url of
                          Inl x \<Rightarrow> [] | Inr entries \<Rightarrow> slice_to max_items entries)
                 (self, w, 0) (self', w', 0)"
    by simp
  then show ?thesis by (intro exI [of _ 0]) simp
next
  case (Inr entries)
  show ?thesis
  proof (cases "entries = []")
    case True
    with Inr assms have "self' = self" and "requests w' = requests w"
      by (auto simp: check_single_feed_def print_def)
    with advances_requests_cong [OF advances_refl [of _ "(self, w, 0)"], of w w']
    have "advances (case feedparser_parse environment feed_url of
                          Inl x \<Rightarrow> [] | Inr entries \<Rightarrow> slice_to max_items entries)
                 (self, w, 0) (self', w', 0)"
      by simp
    then show ?thesis by (intro exI [of _ 0]) simp
  next
    case False
    define w1 where "w1 = print (Checking base_category feed_url) w"
    obtain r self2 w2 n2 where loop:
      "for_entries environment base_category 0 (slice_to max_items entries) (self, w1, 0)
         = (r, (self2, w2, n2))"
      by (metis prod_cases3 surj_pair)
    from for_entries_advances [OF loop]
    have adv: "advances (slice_to max_items entries) (self, w1, 0) (self2, w2, n2)"
      and cap: "n2 \<le> 2"
      by simp_all
    from assms Inr False
    have "(case for_entries environment base_category 0 (slice_to max_items entries)
                  (self, w1, 0) of
             (None, (self', w', new_items)) \<Rightarrow> (self', w')
           | (Some x, (self', w', new_items)) \<Rightarrow> (self', print (FeedError feed_url x) w'))
          = (self', w')"
      by (simp add: check_single_feed_def Let_def w1_def)
    then have "(case r of None \<Rightarrow> (self2, w2)
                | Some x \<Rightarrow> (self2, print (FeedError feed_url x) w2)) = (self', w')"
      unfolding loop by (cases r) simp_all
    then have "self' = self2" and "requests w' = requests w2"
      by (cases r; auto simp: print_def)+
    moreover have "requests w = requests w1" by (simp add: w1_def print_def)
    ultimately have "advances (slice_to max_items entries) (self, w, 0) (self', w', n2)"
      using advances_requests_cong [OF adv] by simp
    with cap Inr show ?thesis by (intro exI [of _ n2]) simp
  qed
qed

subsection \<open>The message built by the notifier\<close>

text \<open>
  C8. In the message that the notifier builds, the title is the input title cut to at
  most 256 characters (a title of 300 characters becomes one of exactly 256) and the
  description is the input description cut to at most 2048 characters (one of 3000
  characters becomes one of exactly 2048), an empty description being replaced by a
  fixed placeholder. When an endpoint is registered for the channel, this message is
  what is posted to it.
\<close>

theorem send_to_discord_truncates:
  "embed_title (build_embed channel title description url timestamp) = take 256 title
   \<and> length (embed_title (build_embed channel title description url timestamp)) \<le> 256
   \<and> (length title = 300
        \<longrightarrow> length (embed_title (build_embed channel title description url timestamp)) = 256)
   \<and> embed_description (build_embed channel title description url timestamp)
        = (if description = [] then ''No description available'' else take 2048 description)
   \<and> length (embed_description (build_embed channel title description url timestamp)) \<le> 2048
   \<and> (length description = 3000
        \<longrightarrow> length (embed_description (build_embed channel title description url timestamp))
              = 2048)
   \<and> embeds (build_data channel title description url timestamp)
        = [build_embed channel title description url timestamp]
   \<and> (webhooks self channel = Some webhook_url \<and> webhook_url \<noteq> []
        \<longrightarrow> (\<exists>response.
               requests (snd (send_to_discord environment i self w channel title description
                                 url category))
                 = requests w @ [((webhook_url,
                                   build_data channel title description url
                                     (utcnow_isoformat environment i)), response)]))"
proof (intro conjI impI)
  show "webhooks self channel = Some webhook_url \<and> webhook_url \<noteq> [] \<Longrightarrow>
        \<exists>response.
               requests (snd (send_to_discord environment i self w channel title description
                                 url category))
                 = requests w @ [((webhook_url,
                                   build_data channel title description url
                                     (utcnow_isoformat environment i)), response)]"
    by (simp add: send_to_discord_configured Let_def)
qed (auto simp: build_embed_def build_data_def)

theorem send_to_discord_truncates_witness:
  "length (embed_title (build_embed ''ctf'' (replicate 300 CHR ''a'') (replicate 3000 CHR ''b'')
             ''https://example.org/box'' ''2026-11-03T12:00:00'')) = 256
   \<and> length (embed_description (build_embed ''ctf'' (replicate 300 CHR ''a'')
             (replicate 3000 CHR ''b'') ''https://example.org/box'' ''2026-11-03T12:00:00'')) = 2048
   \<and> requests (snd (send_to_discord (sample_env (Status 204 [])) 0 sample_bot sample_world
                        ''writeups'' ''A writeup'' [] ''https://example.org/box'' ''ctf''))
       = [((''https://example.org/hook'',
            build_data ''writeups'' ''A writeup'' [] ''https://example.org/box''
              ''2026-11-03T12:00:00''), Status 204 [])]
   \<and> embed_description (build_embed ''writeups'' ''A writeup'' [] ''https://example.org/box''
              ''2026-11-03T12:00:00'') = ''No description available''"
  using send_to_discord_truncates [of "''ctf''" "replicate 300 CHR ''a''" "replicate 3000 CHR ''b''"
          "''https://example.org/box''" "''2026-11-03T12:00:00''" sample_bot
          "''https://example.org/hook''"]
  by (simp add: send_to_discord_configured sample_bot_def sample_world_def sample_env_def
        build_embed_def Let_def)

subsection \<open>A channel without an endpoint\<close>

text \<open>
  C9. When no delivery endpoint is registered for the destination channel, the notifier
  performs no network action (the requests are unchanged), reports a non-success
  outcome (it returns \<open>False\<close> and prints the configuration gap) and does not raise: the
  loop goes on with the next entry, the posted items and the counter unchanged. The
  registry built by the constructor never holds an empty endpoint.
\<close>

theorem send_to_discord_without_endpoint:
  "(webhooks self channel = None \<or> webhooks self channel = Some []
      \<longrightarrow> send_to_discord environment i self w channel title description url category
            = (False, w\<lparr>stdout := stdout w @ [NoWebhook channel]\<rparr>))
   \<and> (entry_title e = Some title \<and> entry_link e = Some link
       \<and> generate_item_id title link \<notin> posted_items self
       \<and> \<not> is_stale (datetime_now environment i) (entry_published_parsed e)
       \<and> target = get_appropriate_channel base_category title
                     (case entry_summary e of None \<Rightarrow> [] | Some s \<Rightarrow> s)
       \<and> webhooks self target = None
       \<and> new_items < 2
      \<longrightarrow> for_entries environment base_category i (e # es) (self, w, new_items)
            = for_entries environment base_category (Suc i) es
                (self, w\<lparr>stdout := stdout w @ [NoWebhook target]\<rparr>, new_items))
   \<and> webhooks (init getenv) channel \<noteq> Some []"
proof (intro conjI impI)
  show "webhooks self channel = None \<or> webhooks self channel = Some [] \<Longrightarrow>
        send_to_discord environment i self w channel title description url category
            = (False, w\<lparr>stdout := stdout w @ [NoWebhook channel]\<rparr>)"
    by (rule send_to_discord_unconfigured)
next
  assume a: "entry_title e = Some title \<and> entry_link e = Some link
       \<and> generate_item_id title link \<notin> posted_items self
       \<and> \<not> is_stale (datetime_now environment i) (entry_published_parsed e)
       \<and> target = get_appropriate_channel base_category title
                     (case entry_summary e of None \<Rightarrow> [] | Some s \<Rightarrow> s)
       \<and> webhooks self target = None
       \<and> new_items < 2"
  then have t: "entry_title e = Some title" and l: "entry_link e = Some link"
    and unseen: "generate_item_id title link \<notin> posted_items self"
    and fresh: "\<not> is_stale (datetime_now environment i) (entry_published_parsed e)"
    and target: "target = get_appropriate_channel base_category title
                     (case entry_summary e of None \<Rightarrow> [] | Some s \<Rightarrow> s)"
    and n: "new_items < 2"
    by simp_all
  from a have none: "webhooks self target = None \<or> webhooks self target = Some []"
    by blast
  have "loop_body environment base_category i e (self, w, new_items)
          = (Continue, (self, w\<lparr>stdout := stdout w @ [NoWebhook target]\<rparr>, new_items))"
    unfolding loop_body_send [OF t l unseen fresh] Let_def target [symmetric]
      send_to_discord_unconfigured [OF none]
    using n by simp
  then show "for_entries environment base_category i (e # es) (self, w, new_items)
            = for_entries environment base_category (Suc i) es
                (self, w\<lparr>stdout := stdout w @ [NoWebhook target]\<rparr>, new_items)"
    by simp
next
  show "webhooks (init getenv) channel \<noteq> Some []"
    by (simp add: init_def split: option.splits)
qed

theorem send_to_discord_without_endpoint_witness:
  "send_to_discord (sample_env (Status 204 [])) 0 sample_bot sample_world
       ''ctf'' ''Upcoming CTF'' [] ''https://example.org/ctf'' ''ctf''
     = (False, \<lparr>requests = [], stdout = [NoWebhook ''ctf'']\<rparr>)"
  using send_to_discord_without_endpoint [of sample_bot "''ctf''" "sample_env (Status 204 [])" 0
          sample_world "''Upcoming CTF''" "[]" "''https://example.org/ctf''" "''ctf''"]
  by (simp add: sample_bot_def sample_world_def)

subsection \<open>The recency filter\<close>

text \<open>
  C3. The recency filter passes every entry with no published timestamp, and every
  entry whose timestamp does not make a date (it is treated as absent). For an entry
  with a timestamp it passes exactly when now - publishedAt <= 48 hours: an older entry
  is rejected, silently (the loop goes on with the state unchanged, nothing printed, no
  exception), and an entry published 48 hours minus one second ago passes. An entry
  that passes, and whose identifier is not posted yet, is processed: it is routed and
  handed to the notifier, and the outcome of the notifier decides the posted items, the
  counter and the end of the loop.
\<close>

theorem recency_filter_policy:
  "\<not> is_stale now None
   \<and> \<not> is_stale now (Some [])
   \<and> (datetime (take 6 t) = None \<longrightarrow> \<not> is_stale now (Some t))
   \<and> (t \<noteq> [] \<and> datetime (take 6 t) = Some pub_date
        \<longrightarrow> (\<not> is_stale now (Some t) \<longleftrightarrow> now - pub_date \<le> hours_48))
   \<and> (t \<noteq> [] \<and> datetime (take 6 t) = Some pub_date \<and> now - pub_date = hours_48 - 1000000
        \<longrightarrow> \<not> is_stale now (Some t))
   \<and> hours_48 = 48 * 60 * 60 * 1000000
   \<and> (entry_title e = Some title \<and> entry_link e = Some link
       \<and> is_stale (datetime_now environment i) (entry_published_parsed e)
        \<longrightarrow> loop_body environment base_category i e (self, w, new_items)
              = (Continue, (self, w, new_items)))
   \<and> (entry_title e = Some title \<and> entry_link e = Some link
       \<and> generate_item_id title link \<notin> posted_items self
       \<and> \<not> is_stale (datetime_now environment i) (entry_published_parsed e)
        \<longrightarrow> loop_body environment base_category i e (self, w, new_items)
              = (let summary = (case entry_summary e of None \<Rightarrow> [] | Some s \<Rightarrow> s);
                     r = send_to_discord environment i self w
                           (get_appropriate_channel base_category title summary)
                           title summary link base_category;
                     new_items' = (if fst r then new_items + 1 else new_items)
                 in (if new_items' \<ge> 2 then Break else Continue,
                     (if fst r
                      then self\<lparr>posted_items := insert (generate_item_id title link)
                                                    (posted_items self)\<rparr>
                      else self,
                      snd r, new_items'))))"
proof (intro conjI impI)
  show "\<not> is_stale now None" and "\<not> is_stale now (Some [])"
    by (simp_all add: is_stale_def)
  show "datetime (take 6 t) = None \<Longrightarrow> \<not> is_stale now (Some t)"
    by (simp add: is_stale_def)
  show "t \<noteq> [] \<and> datetime (take 6 t) = Some pub_date
        \<Longrightarrow> (\<not> is_stale now (Some t)) = (now - pub_date \<le> hours_48)"
    by (simp add: is_stale_iff)
  show "t \<noteq> [] \<and> datetime (take 6 t) = Some pub_date \<and> now - pub_date = hours_48 - 1000000
        \<Longrightarrow> \<not> is_stale now (Some t)"
    by (simp add: is_stale_iff)
  show "hours_48 = 48 * 60 * 60 * 1000000"
    by (simp add: hours_48_def)
  show "entry_title e = Some title \<and> entry_link e = Some link
       \<and> is_stale (datetime_now environment i) (entry_published_parsed e)
        \<Longrightarrow> loop_body environment base_category i e (self, w, new_items)
              = (Continue, (self, w, new_items))"
    by (simp add: loop_body_skip)
next
  assume a: "entry_title e = Some title \<and> entry_link e = Some link
       \<and> generate_item_id title link \<notin> posted_items self
       \<and> \<not> is_stale (datetime_now environment i) (entry_published_parsed e)"
  then have t: "entry_title e = Some title" and l: "entry_link e = Some link"
    and unseen: "generate_item_id title link \<notin> posted_items self"
    and fresh: "\<not> is_stale (datetime_now environment i) (entry_published_parsed e)"
    by simp_all
  show "loop_body environment base_category i e (self, w, new_items)
              = (let summary = (case entry_summary e of None \<Rightarrow> [] | Some s \<Rightarrow> s);
                     r = send_to_discord environment i self w
                           (get_appropriate_channel base_category title summary)
                           title summary link base_category;
                     new_items' = (if fst r then new_items + 1 else new_items)
                 in (if new_items' \<ge> 2 then Break else Continue,
                     (if fst r
                      then self\<lparr>posted_items := insert (generate_item_id title link)
                                                    (posted_items self)\<rparr>
                      else self,
                      snd r, new_items')))"
    by (rule loop_body_send [OF t l unseen fresh])
qed

theorem recency_filter_policy_witness:
  "\<not> is_stale 63929304000000000 (Some [2026, 11, 1, 12, 0, 1, 6, 305, 0])
   \<and> is_stale 63929304000000000 (Some [2026, 11, 1, 11, 59, 59, 6, 305, 0])
   \<and> \<not> is_stale 63929304000000000 (Some [2026, 2, 30, 0, 0, 0, 0, 61, 0])
   \<and> loop_body (sample_env (Status 204 [])) ''ctf'' 0 sample_entry
         (sample_bot, sample_world, 0)
       = (Continue,
          (sample_bot\<lparr>posted_items := {generate_item_id ''CTF Writeup: Pwning the Box''
                                          ''https://example.org/box''}\<rparr>,
           \<lparr>requests = [((''https://example.org/hook'',
                           build_data ''writeups'' ''CTF Writeup: Pwning the Box'' []
                             ''https://example.org/box'' ''2026-11-03T12:00:00''),
                          Status 204 [])],
            stdout = [Posted ''writeups'' ''CTF Writeup: Pwning the Box'']\<rparr>,
           1))
   \<and> loop_body (sample_env (Status 204 [])) ''ctf'' 0
         (sample_entry\<lparr>entry_published_parsed := Some [2026, 11, 1, 11, 59, 59, 6, 305, 0]\<rparr>)
         (sample_bot, sample_world, 0)
       = (Continue, (sample_bot, sample_world, 0))"
proof -
  note date_simps = days_in_month_def is_leap_def ymd2ord_def days_before_year_def
    days_before_month_def
  have fresh: "\<not> is_stale 63929304000000000 (Some [2026, 11, 1, 12, 0, 1, 6, 305, 0])"
    using recency_filter_policy [where now = 63929304000000000
            and t = "[2026, 11, 1, 12, 0, 1, 6, 305, 0]" and pub_date = 63929131201000000]
    by (simp add: date_simps hours_48_def)
  have stale: "is_stale 63929304000000000 (Some [2026, 11, 1, 11, 59, 59, 6, 305, 0])"
    using recency_filter_policy [where now = 63929304000000000
            and t = "[2026, 11, 1, 11, 59, 59, 6, 305, 0]" and pub_date = 63929131199000000]
    by (simp add: date_simps hours_48_def)
  have invalid: "\<not> is_stale 63929304000000000 (Some [2026, 2, 30, 0, 0, 0, 0, 61, 0])"
    using recency_filter_policy [where now = 63929304000000000
            and t = "[2026, 2, 30, 0, 0, 0, 0, 61, 0]"]
    by (simp add: date_simps)
  have passed: "loop_body (sample_env (Status 204 [])) ''ctf'' 0 sample_entry
         (sample_bot, sample_world, 0)
       = (Continue,
          (sample_bot\<lparr>posted_items := {generate_item_id ''CTF Writeup: Pwning the Box''
                                          ''https://example.org/box''}\<rparr>,
           \<lparr>requests = [((''https://example.org/hook'',
                           build_data ''writeups'' ''CTF Writeup: Pwning the Box'' []
                             ''https://example.org/box'' ''2026-11-03T12:00:00''),
                          Status 204 [])],
            stdout = [Posted ''writeups'' ''CTF Writeup: Pwning the Box'']\<rparr>,
           1))"
    using recency_filter_policy [where e = sample_entry
            and title = "''CTF Writeup: Pwning the Box''" and link = "''https://example.org/box''"
            and environment = "sample_env (Status 204 [])" and i = 0
            and base_category = "''ctf''" and self = sample_bot and w = sample_world
            and new_items = 0]
      fresh
    by (simp add: sample_entry_def sample_env_def sample_bot_def sample_world_def
          send_to_discord_def print_def Let_def
          get_appropriate_channel_def writeup_keywords_def str_lower_def)
  have skipped: "loop_body (sample_env (Status 204 [])) ''ctf'' 0
         (sample_entry\<lparr>entry_published_parsed := Some [2026, 11, 1, 11, 59, 59, 6, 305, 0]\<rparr>)
         (sample_bot, sample_world, 0)
       = (Continue, (sample_bot, sample_world, 0))"
    using recency_filter_policy [where
            e = "sample_entry\<lparr>entry_published_parsed :=
                                 Some [2026, 11, 1, 11, 59, 59, 6, 305, 0]\<rparr>"
            and title = "''CTF Writeup: Pwning the Box''" and link = "''https://example.org/box''"
            and environment = "sample_env (Status 204 [])" and i = 0
            and base_category = "''ctf''" and self = sample_bot and w = sample_world
            and new_items = 0]
      stale
    by (simp add: sample_entry_def sample_env_def)
  from fresh stale invalid passed skipped show ?thesis by (intro conjI)
qed

subsection \<open>Skipped entries\<close>

text \<open>
  C10. For an entry that is skipped, because its identifier is already in the posted
  items or because it fails the recency filter, the iteration makes no delivery attempt
  and leaves the posted items, the world and the counter unchanged; the loop goes on
  with the next entry.
\<close>

theorem skipped_entry_frame:
  assumes "entry_title e = Some title" and "entry_link e = Some link"
    and "generate_item_id title link \<in> posted_items self
         \<or> is_stale (datetime_now environment i) (entry_published_parsed e)"
  shows "loop_body environment base_category i e (self, w, new_items)
           = (Continue, (self, w, new_items))
         \<and> for_entries environment base_category i (e # es) (self, w, new_items)
           = for_entries environment base_category (Suc i) es (self, w, new_items)"
  using loop_body_skip [OF assms] by simp

theorem skipped_entry_frame_witness:
  "loop_body (sample_env (Status 204 [])) ''ctf'' 0 sample_entry
      (sample_bot\<lparr>posted_items := {generate_item_id ''CTF Writeup: Pwning the Box''
                                       ''https://example.org/box''}\<rparr>, sample_world, 1)
     = (Continue,
        (sample_bot\<lparr>posted_items := {generate_item_id ''CTF Writeup: Pwning the Box''
                                       ''https://example.org/box''}\<rparr>, sample_world, 1))
   \<and> for_entries (sample_env (Status 204 [])) ''ctf'' 0 [sample_entry]
      (sample_bot\<lparr>posted_items := {generate_item_id ''CTF Writeup: Pwning the Box''
                                       ''https://example.org/box''}\<rparr>, sample_world, 1)
     = (None,
        (sample_bot\<lparr>posted_items := {generate_item_id ''CTF Writeup: Pwning the Box''
                                       ''https://example.org/box''}\<rparr>, sample_world, 1))"
  using skipped_entry_frame [of sample_entry "''CTF Writeup: Pwning the Box''"
          "''https://example.org/box''"
          "sample_bot\<lparr>posted_items := {generate_item_id ''CTF Writeup: Pwning the Box''
                                       ''https://example.org/box''}\<rparr>"
          "sample_env (Status 204 [])" 0 "''ctf''" sample_world 1 "[]"]
  by (simp add: sample_entry_def)

subsection \<open>Failed deliveries\<close>

text \<open>
  C2. When the delivery attempt of an iteration has a non-success outcome (a response
  with a status other than 204, or an exception of the transport), the identifier of
  the entry is not added to the posted items and the counter of successful deliveries
  is not incremented: the bot and the counter are as before the attempt.
\<close>

theorem failed_delivery_not_recorded:
  assumes "loop_body environment base_category i e (self, w, new_items)
             = (fl, (self', w', new_items'))"
    and "requests w' = requests w @ [rr]"
    and "\<not> accepted rr"
  shows "self' = self \<and> posted_items self' = posted_items self \<and> new_items' = new_items
         \<and> (\<forall>text. snd rr \<noteq> Status 204 text)"
proof -
  from loop_body_advances [OF assms(1)] obtain new where
    new: "requests w' = requests w @ new"
    and cnt: "new_items' = new_items + int (length (filter accepted new))"
    and hooks: "webhooks self' = webhooks self"
    and sub: "posted_items self \<subseteq> posted_items self'"
    and fin: "finite (posted_items self' - posted_items self)"
    and card: "int (card (posted_items self' - posted_items self)) = new_items' - new_items"
    unfolding advances_def by auto
  from new assms(2) have "new = [rr]" by simp
  with cnt assms(3) have same: "new_items' = new_items" by simp
  with card fin have "posted_items self' - posted_items self = {}" by simp
  with sub have "posted_items self' = posted_items self" by blast
  with hooks have "self' = self" by simp
  moreover from assms(3) have "\<forall>text. snd rr \<noteq> Status 204 text"
    by (auto simp: accepted_def)
  ultimately show ?thesis using same by simp
qed

theorem failed_delivery_not_recorded_witness:
  "loop_body (sample_env (Status 500 ''Internal Server Error'')) ''ctf'' 0 sample_entry
       (sample_bot, sample_world, 0)
     = (Continue,
        (sample_bot,
         \<lparr>requests = [((''https://example.org/hook'',
                         build_data ''writeups'' ''CTF Writeup: Pwning the Box'' []
                           ''https://example.org/box'' ''2026-11-03T12:00:00''),
                        Status 500 ''Internal Server Error'')],
          stdout = [DiscordError ''writeups'' 500 ''Internal Server Error'']\<rparr>,
         0))
   \<and> \<not> accepted ((''https://example.org/hook'',
                    build_data ''writeups'' ''CTF Writeup: Pwning the Box'' []
                      ''https://example.org/box'' ''2026-11-03T12:00:00''),
                   Status 500 ''Internal Server Error'')
   \<and> posted_items sample_bot = {}"
proof -
  have run: "loop_body (sample_env (Status 500 ''Internal Server Error'')) ''ctf'' 0 sample_entry
       (sample_bot, sample_world, 0)
     = (Continue,
        (sample_bot,
         \<lparr>requests = [((''https://example.org/hook'',
                         build_data ''writeups'' ''CTF Writeup: Pwning the Box'' []
                           ''https://example.org/box'' ''2026-11-03T12:00:00''),
                        Status 500 ''Internal Server Error'')],
          stdout = [DiscordError ''writeups'' 500 ''Internal Server Error'']\<rparr>,
         0))"
    by (simp add: loop_body_def send_to_discord_def print_def Let_def
          sample_env_def sample_bot_def sample_world_def sample_entry_def
          get_appropriate_channel_def writeup_keywords_def str_lower_def
          is_stale_def hours_48_def days_in_month_def is_leap_def ymd2ord_def
          days_before_year_def days_before_month_def)
  have bad: "\<not> accepted ((''https://example.org/hook'',
                    build_data ''writeups'' ''CTF Writeup: Pwning the Box'' []
                      ''https://example.org/box'' ''2026-11-03T12:00:00''),
                   Status 500 ''Internal Server Error'')"
    by (simp add: accepted_def)
  from failed_delivery_not_recorded [OF run _ bad]
  have "posted_items sample_bot = posted_items sample_bot"
    by (simp add: sample_world_def)
  with run bad show ?thesis by (simp add: sample_bot_def)
qed

subsection \<open>The cap on deliveries and the posted items\<close>

text \<open>
  C1. In every invocation of \<^verbatim>\<open>check_single_feed\<close> on one feed at most 2 entries are
  delivered successfully, and the counter of the loop never exceeds 2; the counter is the
  number of requests of the invocation that were delivered. No entry whose identifier is
  in the posted items is delivered again: such an entry is skipped with no request sent
  whatever the state, every request of the invocation carries an entry whose identifier
  was not in the posted items, the posted items only grow, and every successful delivery
  adds one identifier that was not there before.
\<close>

theorem check_single_feed_cap_and_no_redelivery:
  "(check_single_feed environment feed_url base_category max_items self w = (self', w')
      \<longrightarrow> (\<exists>new. requests w' = requests w @ new
             \<and> length (filter accepted new) \<le> 2
             \<and> card (posted_items self' - posted_items self) = length (filter accepted new)
             \<and> posted_items self \<subseteq> posted_items self'
             \<and> (\<forall>rr \<in> set new. \<exists>entries e.
                    feedparser_parse environment feed_url = Inr entries
                    \<and> e \<in> set (slice_to max_items entries)
                    \<and> attempt_of (posted_items self) e rr)))
   \<and> (for_entries environment base_category i es (self, w, 0) = (r, (self1, w1, new_items))
      \<longrightarrow> new_items \<le> 2
          \<and> new_items = int (length (filter accepted (drop (length (requests w)) (requests w1)))))
   \<and> (entry_title e = Some title \<and> entry_link e = Some link
       \<and> generate_item_id title link \<in> posted_items self
      \<longrightarrow> loop_body environment base_category i e (self, w, n) = (Continue, (self, w, n)))"
proof (intro conjI impI)
  assume run: "check_single_feed environment feed_url base_category max_items self w = (self', w')"
  let ?es = "case feedparser_parse environment feed_url of
               Inl x \<Rightarrow> [] | Inr entries \<Rightarrow> slice_to max_items entries"
  from check_single_feed_advances [OF run] obtain n' new where
    cap: "n' \<le> 2"
    and new: "requests w' = requests w @ new"
    and cnt: "n' = int (length (filter accepted new))"
    and sub: "posted_items self \<subseteq> posted_items self'"
    and card: "int (card (posted_items self' - posted_items self)) = n'"
    and att: "\<forall>rr \<in> set new. \<exists>e \<in> set ?es. attempt_of (posted_items self) e rr"
    unfolding advances_def by auto
  have "\<exists>entries e. feedparser_parse environment feed_url = Inr entries
                    \<and> e \<in> set (slice_to max_items entries)
                    \<and> attempt_of (posted_items self) e rr"
    if "rr \<in> set new" for rr
  proof -
    from att that obtain e where e: "e \<in> set ?es" "attempt_of (posted_items self) e rr"
      by blast
    then show ?thesis by (cases "feedparser_parse environment feed_url") auto
  qed
  with cap new cnt sub card
  show "\<exists>new. requests w' = requests w @ new
             \<and> length (filter accepted new) \<le> 2
             \<and> card (posted_items self' - posted_items self) = length (filter accepted new)
             \<and> posted_items self \<subseteq> posted_items self'
             \<and> (\<forall>rr \<in> set new. \<exists>entries e.
                    feedparser_parse environment feed_url = Inr entries
                    \<and> e \<in> set (slice_to max_items entries)
                    \<and> attempt_of (posted_items self) e rr)"
    by (intro exI [of _ new]) simp
next
  assume loop: "for_entries environment base_category i es (self, w, 0) = (r, (self1, w1, new_items))"
  from for_entries_advances [OF loop] obtain new where
    "new_items \<le> 2" "requests w1 = requests w @ new"
    "new_items = int (length (filter accepted new))"
    unfolding advances_def by auto
  then show "new_items \<le> 2" 
    and "new_items = int (length (filter accepted (drop (length (requests w)) (requests w1))))"
    by simp_all
next
  assume "entry_title e = Some title \<and> entry_link e = Some link
       \<and> generate_item_id title link \<in> posted_items self"
  then show "loop_body environment base_category i e (self, w, n) = (Continue, (self, w, n))"
    by (simp add: loop_body_skip)
qed

theorem check_single_feed_cap_and_no_redelivery_witness:
  "check_single_feed (sample_env (Status 204 [])) ''https://example.org/feed'' ''ctf'' 5
       sample_bot sample_world
     = (sample_bot\<lparr>posted_items := {generate_item_id ''CTF Writeup: Pwning the Box''
                                        ''https://example.org/box''}\<rparr>,
        \<lparr>requests = [((''https://example.org/hook'',
                         build_data ''writeups'' ''CTF Writeup: Pwning the Box'' []
                           ''https://example.org/box'' ''2026-11-03T12:00:00''),
                        Status 204 [])],
         stdout = [Checking ''ctf'' ''https://example.org/feed'',
                   Posted ''writeups'' ''CTF Writeup: Pwning the Box'']\<rparr>)
   \<and> (\<exists>new. [((''https://example.org/hook'',
                 build_data ''writeups'' ''CTF Writeup: Pwning the Box'' []
                   ''https://example.org/box'' ''2026-11-03T12:00:00''),
                Status 204 [])] = new
          \<and> length (filter accepted new) \<le> 2
          \<and> card {generate_item_id ''CTF Writeup: Pwning the Box'' ''https://example.org/box''}
              = length (filter accepted new))"
proof -
  have run: "check_single_feed (sample_env (Status 204 [])) ''https://example.org/feed'' ''ctf'' 5
       sample_bot sample_world
     = (sample_bot\<lparr>posted_items := {generate_item_id ''CTF Writeup: Pwning the Box''
                                        ''https://example.org/box''}\<rparr>,
        \<lparr>requests = [((''https://example.org/hook'',
                         build_data ''writeups'' ''CTF Writeup: Pwning the Box'' []
                           ''https://example.org/box'' ''2026-11-03T12:00:00''),
                        Status 204 [])],
         stdout = [Checking ''ctf'' ''https://example.org/feed'',
                   Posted ''writeups'' ''CTF Writeup: Pwning the Box'']\<rparr>)"
    by (simp add: check_single_feed_def slice_to_def loop_body_def send_to_discord_def
          print_def Let_def
          sample_env_def sample_bot_def sample_world_def sample_entry_def
          get_appropriate_channel_def writeup_keywords_def str_lower_def
          is_stale_def hours_48_def days_in_month_def is_leap_def ymd2ord_def
          days_before_year_def days_before_month_def)
  from check_single_feed_cap_and_no_redelivery [of "sample_env (Status 204 [])"
         "''https://example.org/feed''" "''ctf''" 5 sample_bot sample_world]
    run
  show ?thesis by (simp add: sample_bot_def sample_world_def accepted_def)
qed

end
